theory Spec2Isabelle
  imports Complex_Main "HOL-Library.AList"
begin

section \<open>Python values, errors and sequencing\<close>

text \<open>
  The model covers \<^verbatim>\<open>gerar_csv.py\<close>: \<^verbatim>\<open>read_annotations\<close>,
  \<^verbatim>\<open>is_frame_in_annotation\<close>, \<^verbatim>\<open>detect_keypoints\<close>, \<^verbatim>\<open>process_video\<close> and
  \<^verbatim>\<open>main\<close>. An exception of the source is a value \<open>Inl e\<close>; \<open>bind\<close> sequences two
  steps and stops at the first exception, as Python does. No function of the source
  catches an exception, so every \<open>Inl\<close> travels to the caller unchanged.
  \<open>DetectorError\<close> stands for whatever \<^verbatim>\<open>cv2.cvtColor\<close> or the YOLO model raise.
\<close>

datatype error = IndexError | ValueError | TypeError | DetectorError

definition bind :: "error + 'a \<Rightarrow> ('a \<Rightarrow> error + 'b) \<Rightarrow> error + 'b" where
  "bind r f = (case r of Inl e \<Rightarrow> Inl e | Inr v \<Rightarrow> f v)"

text \<open>\<^verbatim>\<open>xs[i]\<close> for a non-negative literal index: IndexError out of range.\<close>

definition py_index :: "'a list \<Rightarrow> nat \<Rightarrow> error + 'a" where
  "py_index xs i = (if i < length xs then Inr (xs ! i) else Inl IndexError)"

text \<open>
  A cell of a CSV row, and an entry of a coordinate list: the source mixes strings (the
  header), integers (frame number, person index, label and the padding \<^verbatim>\<open>[0] * n\<close>)
  and floats (\<^verbatim>\<open>float(point[0])\<close>). A float is carried as the real number it
  denotes: the program never computes with coordinates, it only copies them.
\<close>

datatype pyval = PyStr string | PyInt int | PyFloat real

section \<open>Annotation file\<close>

text \<open>
  Text is a list of characters, each character read as the code point of its number
  (0 to 255). \<^verbatim>\<open>str.strip()\<close>, \<^verbatim>\<open>str.split()\<close> and \<^verbatim>\<open>int()\<close> treat as
  white space the code points for which \<^verbatim>\<open>str.isspace()\<close> holds: in this range
  9 to 13, 28 to 32, 133 and 160.
\<close>

definition py_isspace :: "char \<Rightarrow> bool" where
  "py_isspace c \<longleftrightarrow>
     c \<in> set [CHR 0x09, CHR 0x0A, CHR 0x0B, CHR 0x0C, CHR 0x0D, CHR 0x1C, CHR 0x1D, CHR 0x1E,
              CHR 0x1F, CHR 0x20, CHR 0x85, CHR 0xA0]"

definition py_strip :: "string \<Rightarrow> string" where
  "py_strip s = rev (dropWhile py_isspace (rev (dropWhile py_isspace s)))"

text \<open>
  \<^verbatim>\<open>line.split()\<close> with no argument: the maximal runs of non-white-space characters,
  in order; \<open>cur\<close> holds the current run, reversed.
\<close>

fun split_from :: "string \<Rightarrow> string \<Rightarrow> string list" where
  "split_from cur [] = (if cur = [] then [] else [rev cur])"
| "split_from cur (c # cs) =
     (if py_isspace c then (if cur = [] then split_from [] cs else rev cur # split_from [] cs)
      else split_from (c # cur) cs)"

definition py_split :: "string \<Rightarrow> string list" where
  "py_split s = split_from [] s"

text \<open>
  \<^verbatim>\<open>for line in f\<close> on a file opened with \<^verbatim>\<open>open(txt_path, 'r')\<close>: universal
  newlines turn \<open>CR LF\<close> and a lone \<open>CR\<close> into \<open>LF\<close>, and every line keeps its
  final \<open>LF\<close> (the last line may have none).
\<close>

fun universal_newlines :: "string \<Rightarrow> string" where
  "universal_newlines [] = []"
| "universal_newlines [c] = [if c = CHR 0x0D then CHR 0x0A else c]"
| "universal_newlines (c # d # cs) =
     (if c = CHR 0x0D then
        (if d = CHR 0x0A then CHR 0x0A # universal_newlines cs
         else CHR 0x0A # universal_newlines (d # cs))
      else c # universal_newlines (d # cs))"

fun lines_from :: "string \<Rightarrow> string \<Rightarrow> string list" where
  "lines_from cur [] = (if cur = [] then [] else [rev cur])"
| "lines_from cur (c # cs) =
     (if c = CHR 0x0A then rev (c # cur) # lines_from [] cs else lines_from (c # cur) cs)"

definition file_lines :: "string \<Rightarrow> string list" where
  "file_lines text = lines_from [] (universal_newlines text)"

text \<open>
  \<^verbatim>\<open>int(s)\<close> on a string, base 10: white space around, an optional sign, then
  decimal digits, where single underscores may stand between two digits; anything else
  is a ValueError. CPython from 3.11 on also refuses, with a ValueError, a literal of
  more than 4300 digits (the default of \<^verbatim>\<open>sys.get_int_max_str_digits()\<close>).
\<close>

definition py_isdigit :: "char \<Rightarrow> bool" where
  "py_isdigit c \<longleftrightarrow> 48 \<le> (of_char c :: nat) \<and> (of_char c :: nat) \<le> 57"

fun digits_ok :: "string \<Rightarrow> bool" where
  "digits_ok [] = False"
| "digits_ok [c] = py_isdigit c"
| "digits_ok (c # d # cs) =
     (py_isdigit c \<and> (if d = CHR ''_'' then digits_ok cs else digits_ok (d # cs)))"

definition digits_value :: "string \<Rightarrow> int" where
  "digits_value ds = foldl (\<lambda>a c. 10 * a + (of_char c - 48)) 0 (filter py_isdigit ds)"

definition max_str_digits :: nat where
  "max_str_digits = 4300"

definition py_int :: "string \<Rightarrow> error + int" where
  "py_int s =
     (let t = py_strip s;
          neg = (t \<noteq> [] \<and> hd t = CHR ''-'');
          body = (if t \<noteq> [] \<and> (hd t = CHR ''-'' \<or> hd t = CHR ''+'') then tl t else t)
      in if digits_ok body \<and> length (filter py_isdigit body) \<le> max_str_digits
         then Inr (if neg then - digits_value body else digits_value body)
         else Inl ValueError)"

text \<open>
  The value stored per video:
  \<^verbatim>\<open>{"event": event_name, "intervals": intervals}\<close>.
\<close>

record annotation =
  event :: string
  intervals :: "(int \<times> int) list"

text \<open>
  The body of the loop of \<^verbatim>\<open>read_annotations\<close> for one line. \<open>Inr None\<close> is the
  \<^verbatim>\<open>continue\<close> of a blank line. The reads \<^verbatim>\<open>parts[0]\<close>, \<^verbatim>\<open>parts[1]\<close>,
  \<^verbatim>\<open>int(parts[2])\<close>, \<^verbatim>\<open>int(parts[3])\<close>, \<^verbatim>\<open>int(parts[4])\<close>, \<^verbatim>\<open>int(parts[5])\<close>
  happen in this order, each raising IndexError or ValueError on its own; nothing looks
  at \<^verbatim>\<open>len(parts)\<close> or at a token after the sixth.
\<close>

definition parse_line :: "string \<Rightarrow> error + (string \<times> annotation) option" where
  "parse_line raw =
     (let line = py_strip raw in
      if line = [] then Inr None
      else
        let parts = py_split line in
        bind (py_index parts 0) (\<lambda>video_name.
        bind (py_index parts 1) (\<lambda>event_name.
        bind (py_index parts 2) (\<lambda>p2. bind (py_int p2) (\<lambda>start1.
        bind (py_index parts 3) (\<lambda>p3. bind (py_int p3) (\<lambda>end1.
        bind (py_index parts 4) (\<lambda>p4. bind (py_int p4) (\<lambda>start2.
        bind (py_index parts 5) (\<lambda>p5. bind (py_int p5) (\<lambda>end2.
          Inr (Some (video_name,
            \<lparr>event = event_name,
             intervals =
               (if start1 \<noteq> - 1 \<and> end1 \<noteq> - 1 then [(start1, end1)] else []) @
               (if start2 \<noteq> - 1 \<and> end2 \<noteq> - 1 then [(start2, end2)] else [])\<rparr>)))))))))))))"

text \<open>
  The dictionary \<^verbatim>\<open>annotations\<close> is an association list in insertion order, which is
  the order \<^verbatim>\<open>annotations.items()\<close> later yields; \<^verbatim>\<open>annotations[video_name] = ...\<close>
  replaces the value of a key already present where it stands and appends a new key,
  which is \<open>AList.update\<close>.
\<close>

fun read_lines ::
  "string list \<Rightarrow> (string \<times> annotation) list \<Rightarrow> error + (string \<times> annotation) list" where
  "read_lines [] annotations = Inr annotations"
| "read_lines (l # ls) annotations =
     (case parse_line l of
        Inl e \<Rightarrow> Inl e
      | Inr None \<Rightarrow> read_lines ls annotations
      | Inr (Some (video_name, info)) \<Rightarrow>
          read_lines ls (AList.update video_name info annotations))"

text \<open>\<^verbatim>\<open>read_annotations\<close>, from the content of the file at \<^verbatim>\<open>txt_path\<close>.\<close>

definition read_annotations :: "string \<Rightarrow> error + (string \<times> annotation) list" where
  "read_annotations text = read_lines (file_lines text) []"

section \<open>Frame labelling\<close>

text \<open>
  \<^verbatim>\<open>is_frame_in_annotation(frame_number, intervals)\<close>: a linear scan over the
  \<open>(start, end)\<close> pairs that returns \<open>1\<close> at the first pair with
  \<open>start <= frame_number <= end\<close> and \<open>0\<close> when the scan ends. Frame numbers and
  interval bounds are Python integers, hence \<open>int\<close>.
\<close>

fun is_frame_in_annotation :: "int \<Rightarrow> (int \<times> int) list \<Rightarrow> int" where
  "is_frame_in_annotation frame_number [] = 0"
| "is_frame_in_annotation frame_number ((start, end) # ivs) =
     (if start \<le> frame_number \<and> frame_number \<le> end then 1
      else is_frame_in_annotation frame_number ivs)"

text \<open>
  The label decision made inside \<^verbatim>\<open>process_video\<close> for the current frame:
  \<^verbatim>\<open>if event_name == "Fighting": label = is_frame_in_annotation(frame_count, intervals)\<close>,
  \<^verbatim>\<open>else: label = 0\<close>.
\<close>

definition frame_label :: "string \<Rightarrow> int \<Rightarrow> (int \<times> int) list \<Rightarrow> int" where
  "frame_label event_name frame_count ivs =
     (if event_name = ''Fighting'' then is_frame_in_annotation frame_count ivs else 0)"

section \<open>Keypoint detection\<close>

text \<open>
  A NumPy array as nested lists: \<open>Scalar\<close> is an element (or an array of no
  dimension), \<open>NDArray\<close> an array of one dimension more than its entries. The four
  operations the source applies to \<^verbatim>\<open>kp_array\<close> and \<^verbatim>\<open>point\<close>:
  \<^verbatim>\<open>a.shape[0]\<close>, \<^verbatim>\<open>a[i]\<close>, \<^verbatim>\<open>for point in a\<close> and \<^verbatim>\<open>float(a)\<close>. Indexing a
  scalar raises IndexError, iterating over one raises TypeError, and \<^verbatim>\<open>float\<close> of an
  array of several elements raises TypeError (no array whose last axis has length 2
  reaches \<^verbatim>\<open>float\<close> with exactly one element).
\<close>

datatype ndarray = Scalar real | NDArray "ndarray list"

definition shape0 :: "ndarray \<Rightarrow> error + nat" where
  "shape0 a = (case a of Scalar x \<Rightarrow> Inl IndexError | NDArray xs \<Rightarrow> Inr (length xs))"

definition nd_index :: "ndarray \<Rightarrow> nat \<Rightarrow> error + ndarray" where
  "nd_index a i = (case a of Scalar x \<Rightarrow> Inl IndexError | NDArray xs \<Rightarrow> py_index xs i)"

definition nd_iter :: "ndarray \<Rightarrow> error + ndarray list" where
  "nd_iter a = (case a of Scalar x \<Rightarrow> Inl TypeError | NDArray xs \<Rightarrow> Inr xs)"

definition py_float :: "ndarray \<Rightarrow> error + real" where
  "py_float a = (case a of Scalar x \<Rightarrow> Inr x | NDArray xs \<Rightarrow> Inl TypeError)"

text \<open>
  \<^verbatim>\<open>for point in kp_array: coords.extend([float(point[0]), float(point[1])])\<close>
\<close>

fun extend_points :: "ndarray list \<Rightarrow> pyval list \<Rightarrow> error + pyval list" where
  "extend_points [] coords = Inr coords"
| "extend_points (point # points) coords =
     bind (nd_index point 0) (\<lambda>p0. bind (py_float p0) (\<lambda>x.
     bind (nd_index point 1) (\<lambda>p1. bind (py_float p1) (\<lambda>y.
       extend_points points (coords @ [PyFloat x, PyFloat y])))))"

text \<open>
  The body of \<^verbatim>\<open>for person in detected.keypoints\<close>, from the array
  \<^verbatim>\<open>person.xy.cpu().numpy()\<close>: drop the first axis when \<^verbatim>\<open>kp_array.shape[0] == 1\<close>,
  flatten the points, and pad with the integer 0 when fewer than 34 values came out. A
  longer list is kept as it is.
\<close>

definition person_coords :: "ndarray \<Rightarrow> error + pyval list" where
  "person_coords xy =
     bind (shape0 xy) (\<lambda>n.
     bind (if n = 1 then nd_index xy 0 else Inr xy) (\<lambda>kp_array.
     bind (nd_iter kp_array) (\<lambda>points.
     bind (extend_points points []) (\<lambda>coords.
       Inr (if length coords < 34 then coords @ replicate (34 - length coords) (PyInt 0)
            else coords)))))"

fun collect_persons :: "ndarray list \<Rightarrow> pyval list list \<Rightarrow> error + pyval list list" where
  "collect_persons [] all_detections = Inr all_detections"
| "collect_persons (xy # persons) all_detections =
     bind (person_coords xy) (\<lambda>coords. collect_persons persons (all_detections @ [coords]))"

text \<open>
  One element of the list the YOLO model returns: \<^verbatim>\<open>detected.keypoints\<close> is
  \<^verbatim>\<open>None\<close> or a sequence of persons, given here by the \<^verbatim>\<open>xy\<close> array of each.
\<close>

record pose_result =
  keypoints :: "ndarray list option"

text \<open>
  \<^verbatim>\<open>detect_keypoints(frame)\<close>. The global \<^verbatim>\<open>pose_model\<close> is a parameter; it stands
  for \<^verbatim>\<open>cv2.cvtColor\<close> followed by the model call and may raise.
\<close>

definition detect_keypoints ::
  "('f \<Rightarrow> error + pose_result list) \<Rightarrow> 'f \<Rightarrow> error + pyval list list" where
  "detect_keypoints pose_model frame =
     bind (pose_model frame) (\<lambda>results.
     bind (case results of
             [] \<Rightarrow> Inr []
           | detected # _ \<Rightarrow>
               (case keypoints detected of
                  None \<Rightarrow> Inr []
                | Some persons \<Rightarrow>
                    if length persons > 0 then collect_persons persons [] else Inr []))
       (\<lambda>all_detections.
          Inr (if all_detections = [] then [replicate 34 (PyInt 0)] else all_detections)))"

text \<open>
  The two shapes of \<^verbatim>\<open>person.xy\<close> the source comments name: \<open>(17, 2)\<close>, a list of
  points, and \<open>(1, 17, 2)\<close>, the same list inside one more axis of length 1 (what
  iterating over the keypoints of a result yields).
\<close>

definition flat_points :: "(real \<times> real) list \<Rightarrow> ndarray" where
  "flat_points pts = NDArray (map (\<lambda>(x, y). NDArray [Scalar x, Scalar y]) pts)"

definition wrapped_points :: "(real \<times> real) list \<Rightarrow> ndarray" where
  "wrapped_points pts = NDArray [flat_points pts]"

section \<open>One video\<close>

text \<open>
  \<^verbatim>\<open>cv2.VideoCapture(video_path)\<close>: whether the capture opened, and the frames
  \<^verbatim>\<open>cap.read()\<close> returns with \<^verbatim>\<open>ret\<close> true before the first \<^verbatim>\<open>ret\<close> false. A
  video file holds finitely many frames, so the \<^verbatim>\<open>while True\<close> loop is a recursion
  over this list.
\<close>

record 'f video_capture =
  isOpened :: bool
  frames :: "'f list"

text \<open>The three \<^verbatim>\<open>print\<close> calls of the source, by their arguments.\<close>

datatype message =
  CannotOpen string
  | Processed string string int
  | Starting string string

text \<open>
  What a call of \<^verbatim>\<open>process_video\<close> leaves behind: the rows in the file at
  \<^verbatim>\<open>output_csv_path\<close> (\<open>None\<close> when the file was never opened for writing), whether
  \<^verbatim>\<open>cap.release()\<close> was called, what was printed, and the exception that left the
  function, if any. Opening and writing the CSV file are taken to succeed.
\<close>

record outcome =
  csv :: "pyval list list option"
  released :: bool
  printed :: "message list"
  raised :: "error option"

text \<open>\<^verbatim>\<open>f"{i}"\<close> for an integer: its decimal digits.\<close>

fun str_nat :: "nat \<Rightarrow> string" where
  "str_nat n =
     (if n < 10 then [char_of (48 + n)] else str_nat (n div 10) @ [char_of (48 + n mod 10)])"

declare str_nat.simps [simp del]

definition py_str :: "int \<Rightarrow> string" where
  "py_str i = (if i < 0 then CHR ''-'' # str_nat (nat (- i)) else str_nat (nat i))"

text \<open>
  \<^verbatim>\<open>header = ["frame", "person_id"]\<close>, then \<^verbatim>\<open>f"x{i}"\<close> and \<^verbatim>\<open>f"y{i}"\<close> for
  \<^verbatim>\<open>i in range(1, 18)\<close>, then \<^verbatim>\<open>"label"\<close>.
\<close>

definition header :: "pyval list" where
  "header =
     [PyStr ''frame'', PyStr ''person_id''] @
     concat (map (\<lambda>i. [PyStr (''x'' @ py_str i), PyStr (''y'' @ py_str i)]) [1..17]) @
     [PyStr ''label'']"

text \<open>
  \<^verbatim>\<open>for person_id, keypoints in enumerate(detections):\<close>
  \<^verbatim>\<open>writer.writerow([frame_count, person_id] + keypoints + [label])\<close>
\<close>

definition frame_rows :: "int \<Rightarrow> pyval list list \<Rightarrow> int \<Rightarrow> pyval list list" where
  "frame_rows frame_count detections label =
     map (\<lambda>(person_id, kps). [PyInt frame_count, PyInt (int person_id)] @ kps @ [PyInt label])
       (enumerate 0 detections)"

text \<open>
  The \<^verbatim>\<open>while True\<close> loop of \<^verbatim>\<open>process_video\<close> over the frames still to be read,
  with the running \<^verbatim>\<open>frame_count\<close> and the rows written so far. An exception of
  \<^verbatim>\<open>detect_keypoints\<close> ends the loop with the rows already written.
\<close>

fun read_frames ::
  "('f \<Rightarrow> error + pose_result list) \<Rightarrow> string \<Rightarrow> (int \<times> int) list \<Rightarrow> 'f list \<Rightarrow> int \<Rightarrow>
     pyval list list \<Rightarrow> error option \<times> int \<times> pyval list list" where
  "read_frames pose_model event_name ivs [] frame_count rows = (None, frame_count, rows)"
| "read_frames pose_model event_name ivs (frame # rest) frame_count rows =
     (case detect_keypoints pose_model frame of
        Inl e \<Rightarrow> (Some e, frame_count + 1, rows)
      | Inr detections \<Rightarrow>
          read_frames pose_model event_name ivs rest (frame_count + 1)
            (rows @ frame_rows (frame_count + 1) detections
                      (frame_label event_name (frame_count + 1) ivs)))"

text \<open>
  \<^verbatim>\<open>process_video(video_path, event_name, intervals, output_csv_path)\<close>, with the
  capture that \<^verbatim>\<open>cv2.VideoCapture(video_path)\<close> gives as a parameter. The three
  ways out: the early \<^verbatim>\<open>return\<close> when the capture is not open, before the CSV file is
  opened and without a call of \<^verbatim>\<open>cap.release()\<close>; an exception inside the
  \<^verbatim>\<open>with\<close> block, which closes the CSV file and leaves the function before
  \<^verbatim>\<open>cap.release()\<close>; and the normal end, \<^verbatim>\<open>cap.release()\<close> then the last
  \<^verbatim>\<open>print\<close>.
\<close>

definition process_video ::
  "('f \<Rightarrow> error + pose_result list) \<Rightarrow> 'f video_capture \<Rightarrow> string \<Rightarrow> string \<Rightarrow>
     (int \<times> int) list \<Rightarrow> string \<Rightarrow> outcome" where
  "process_video pose_model cap video_path event_name ivs output_csv_path =
     (if \<not> isOpened cap then
        \<lparr>csv = None, released = False, printed = [CannotOpen video_path], raised = None\<rparr>
      else
        (case read_frames pose_model event_name ivs (frames cap) 0 [header] of
           (Some e, frame_count, rows) \<Rightarrow>
             \<lparr>csv = Some rows, released = False, printed = [], raised = Some e\<rparr>
         | (None, frame_count, rows) \<Rightarrow>
             \<lparr>csv = Some rows, released = True,
              printed = [Processed video_path output_csv_path frame_count], raised = None\<rparr>))"

section \<open>The corpus\<close>

text \<open>
  The state \<^verbatim>\<open>main\<close> works on: the CSV files by path, the printed lines, and the
  exception that ended the run, if any.
\<close>

record run_state =
  files :: "(string \<times> pyval list list) list"
  console :: "message list"
  failure :: "error option"

text \<open>
  The loop \<^verbatim>\<open>for video_name, info in annotations.items()\<close>. The path computations
  (\<^verbatim>\<open>os.path.join\<close>, \<^verbatim>\<open>os.path.splitext\<close>) and \<^verbatim>\<open>cv2.VideoCapture\<close> are the
  parameters \<open>video_path_of\<close>, \<open>csv_path_of\<close> and \<open>open_capture\<close>. An exception out of
  \<^verbatim>\<open>process_video\<close> is not caught: it ends the loop.
\<close>

fun process_entries ::
  "('f \<Rightarrow> error + pose_result list) \<Rightarrow> (string \<Rightarrow> 'f video_capture) \<Rightarrow> (string \<Rightarrow> string) \<Rightarrow>
     (string \<Rightarrow> string) \<Rightarrow> (string \<times> annotation) list \<Rightarrow> run_state \<Rightarrow> run_state" where
  "process_entries pose_model open_capture video_path_of csv_path_of [] st = st"
| "process_entries pose_model open_capture video_path_of csv_path_of ((video_name, info) # rest) st =
     (let video_path = video_path_of video_name;
          output_csv_path = csv_path_of video_name;
          out = process_video pose_model (open_capture video_path) video_path (event info)
                  (intervals info) output_csv_path;
          st' = \<lparr>files = (case csv out of
                            None \<Rightarrow> files st
                          | Some rows \<Rightarrow> AList.update output_csv_path rows (files st)),
                 console = console st @ [Starting video_name (event info)] @ printed out,
                 failure = raised out\<rparr>
      in if raised out = None
         then process_entries pose_model open_capture video_path_of csv_path_of rest st'
         else st')"

text \<open>
  \<^verbatim>\<open>main()\<close>, from the content of the annotation file and the files already in the
  output directory.
\<close>

definition main ::
  "('f \<Rightarrow> error + pose_result list) \<Rightarrow> (string \<Rightarrow> 'f video_capture) \<Rightarrow> (string \<Rightarrow> string) \<Rightarrow>
     (string \<Rightarrow> string) \<Rightarrow> (string \<times> pyval list list) list \<Rightarrow> string \<Rightarrow> run_state" where
  "main pose_model open_capture video_path_of csv_path_of files0 text =
     (case read_annotations text of
        Inl e \<Rightarrow> \<lparr>files = files0, console = [], failure = Some e\<rparr>
      | Inr annotations \<Rightarrow>
          process_entries pose_model open_capture video_path_of csv_path_of annotations
            \<lparr>files = files0, console = [], failure = None\<rparr>)"

section \<open>Properties of the labelling\<close>

lemma is_frame_in_annotation_cases:
  "is_frame_in_annotation n ivs = (if \<exists>(s, e) \<in> set ivs. s \<le> n \<and> n \<le> e then 1 else 0)"
  by (induction ivs) (auto split: if_splits)

text \<open>
  C1. For every frame index, event name and interval list the label is \<open>1\<close> exactly when
  the event is \<open>Fighting\<close> and the frame index lies in some closed interval
  \<open>[start, end]\<close> of the list, both bounds included; in every other case, also for a
  \<open>Fighting\<close> event with no interval or no matching interval, the label is \<open>0\<close>.
\<close>

theorem frame_label_iff:
  "(frame_label ev n ivs = 1 \<longleftrightarrow>
      ev = ''Fighting'' \<and> (\<exists>(s, e) \<in> set ivs. s \<le> n \<and> n \<le> e))
   \<and> (frame_label ev n ivs \<noteq> 1 \<longrightarrow> frame_label ev n ivs = 0)
   \<and> frame_label ''Fighting'' n [] = 0
   \<and> frame_label ''Fighting'' s [(s, e)] = (if s \<le> e then 1 else 0)
   \<and> frame_label ''Fighting'' e [(s, e)] = (if s \<le> e then 1 else 0)"
  by (simp add: frame_label_def is_frame_in_annotation_cases)

theorem frame_label_iff_witness:
  "frame_label ''Fighting'' 1820 [(1820, 3103)] = 1
   \<and> frame_label ''Fighting'' 3103 [(1820, 3103)] = 1
   \<and> frame_label ''Fighting'' 3104 [(1820, 3103)] = 0
   \<and> frame_label ''Normal'' 2000 [(1820, 3103)] = 0"
  using frame_label_iff [of "''Fighting''" 1820 "[(1820, 3103)]" 1820 3103]
        frame_label_iff [of "''Fighting''" 3104 "[(1820, 3103)]"]
        frame_label_iff [of "''Normal''" 2000 "[(1820, 3103)]"]
  by simp

section \<open>Properties of the annotation parser\<close>

lemma parse_line_blank: "py_strip l = [] \<Longrightarrow> parse_line l = Inr None"
  by (simp add: parse_line_def)

lemma parse_line_tokens:
  assumes "py_strip l \<noteq> []"
    and toks: "py_split (py_strip l) = v # ev # t1 # t2 # t3 # t4 # rest"
    and ints: "py_int t1 = Inr s1" "py_int t2 = Inr e1" "py_int t3 = Inr s2" "py_int t4 = Inr e2"
  shows "parse_line l = Inr (Some (v, \<lparr>event = ev, intervals =
            (if s1 \<noteq> - 1 \<and> e1 \<noteq> - 1 then [(s1, e1)] else []) @
            (if s2 \<noteq> - 1 \<and> e2 \<noteq> - 1 then [(s2, e2)] else [])\<rparr>))"
proof -
  let ?parts = "v # ev # t1 # t2 # t3 # t4 # rest"
  have ix: "py_index ?parts 0 = Inr v" "py_index ?parts 1 = Inr ev" "py_index ?parts 2 = Inr t1"
    "py_index ?parts 3 = Inr t2" "py_index ?parts 4 = Inr t3" "py_index ?parts 5 = Inr t4"
    by (simp_all add: py_index_def)
  show ?thesis
    unfolding parse_line_def Let_def toks
    using assms(1) by (simp only: ix ints bind_def sum.case if_False)
qed

lemma bind_Inl_iff:
  "(\<exists>e. bind r f = Inl e) \<longleftrightarrow> (\<exists>e. r = Inl e) \<or> (\<exists>v. r = Inr v \<and> (\<exists>e. f v = Inl e))"
  by (cases r) (simp_all add: bind_def)

lemma py_index_Inl_iff: "(\<exists>e. py_index xs i = Inl e) \<longleftrightarrow> \<not> i < length xs"
  by (simp add: py_index_def)

lemma py_index_Inr_iff: "py_index xs i = Inr v \<longleftrightarrow> i < length xs \<and> v = xs ! i"
  by (auto simp: py_index_def)

lemma py_int_Inl_iff: "(\<exists>e. py_int s = Inl e) \<longleftrightarrow> py_int s = Inl ValueError"
  by (simp add: py_int_def Let_def)

lemma py_int_Inr_iff: "(\<exists>v. py_int s = Inr v) \<longleftrightarrow> py_int s \<noteq> Inl ValueError"
  by (simp add: py_int_def Let_def)

lemma parse_line_Inl_iff:
  "(\<exists>e. parse_line l = Inl e) \<longleftrightarrow>
     py_strip l \<noteq> [] \<and>
     (length (py_split (py_strip l)) < 6 \<or>
      (\<exists>i \<in> {2, 3, 4, 5}. py_int (py_split (py_strip l) ! i) = Inl ValueError))"
proof (cases "py_strip l = []")
  case True
  then show ?thesis by (simp add: parse_line_def)
next
  case False
  define parts where "parts = py_split (py_strip l)"
  have "(\<exists>e. parse_line l = Inl e) \<longleftrightarrow>
          length parts < 6 \<or> py_int (parts ! 2) = Inl ValueError \<or> py_int (parts ! 3) = Inl ValueError
          \<or> py_int (parts ! 4) = Inl ValueError \<or> py_int (parts ! 5) = Inl ValueError"
    using False unfolding parse_line_def Let_def parts_def [symmetric]
    by (simp add: bind_Inl_iff py_index_Inl_iff py_index_Inr_iff py_int_Inl_iff py_int_Inr_iff)
      (cases "length parts < 6"; force)
  then show ?thesis using False by (simp add: parts_def)
qed

lemma read_lines_Inl_iff:
  "(\<exists>e. read_lines ls acc = Inl e) \<longleftrightarrow> (\<exists>l \<in> set ls. \<exists>e. parse_line l = Inl e)"
  by (induction ls arbitrary: acc) (auto split: sum.splits option.splits)

lemma universal_newlines_append:
  "CHR 0x0D \<notin> set l \<Longrightarrow> universal_newlines (l @ c # rest) = l @ universal_newlines (c # rest)"
proof (induction l)
  case Nil
  then show ?case by simp
next
  case (Cons a l)
  then show ?case by (cases l) auto
qed

lemma universal_newlines_plain: "CHR 0x0D \<notin> set l \<Longrightarrow> universal_newlines l = l"
  by (induction l rule: universal_newlines.induct) auto

lemma universal_newlines_LF:
  "universal_newlines (CHR 0x0A # rest) = CHR 0x0A # universal_newlines rest"
  by (cases rest) auto

lemma universal_newlines_CR:
  "rest = [] \<or> hd rest \<noteq> CHR 0x0A \<Longrightarrow>
   universal_newlines (CHR 0x0D # rest) = CHR 0x0A # universal_newlines rest"
  by (cases rest) auto

lemma lines_from_segment:
  "CHR 0x0A \<notin> set l \<Longrightarrow>
   lines_from cur (l @ CHR 0x0A # rest) = (rev cur @ l @ [CHR 0x0A]) # lines_from [] rest"
  by (induction l arbitrary: cur) auto

lemma lines_from_last:
  "CHR 0x0A \<notin> set l \<Longrightarrow> lines_from cur l = (if cur = [] \<and> l = [] then [] else [rev cur @ l])"
  by (induction l arbitrary: cur) auto

lemma file_lines_Nil: "file_lines [] = []"
  by (simp add: file_lines_def)

lemma file_lines_LF:
  assumes "CHR 0x0D \<notin> set l" "CHR 0x0A \<notin> set l"
  shows "file_lines (l @ CHR 0x0A # rest) = (l @ [CHR 0x0A]) # file_lines rest"
  using assms
  by (simp add: file_lines_def universal_newlines_append universal_newlines_LF lines_from_segment)

lemma file_lines_CRLF:
  assumes "CHR 0x0D \<notin> set l" "CHR 0x0A \<notin> set l"
  shows "file_lines (l @ CHR 0x0D # CHR 0x0A # rest) = (l @ [CHR 0x0A]) # file_lines rest"
  using assms
  by (simp add: file_lines_def universal_newlines_append lines_from_segment)

lemma file_lines_CR:
  assumes "CHR 0x0D \<notin> set l" "CHR 0x0A \<notin> set l" "rest = [] \<or> hd rest \<noteq> CHR 0x0A"
  shows "file_lines (l @ CHR 0x0D # rest) = (l @ [CHR 0x0A]) # file_lines rest"
  using assms
  by (simp add: file_lines_def universal_newlines_append universal_newlines_CR lines_from_segment)

lemma file_lines_last:
  assumes "CHR 0x0D \<notin> set l" "CHR 0x0A \<notin> set l" "l \<noteq> []"
  shows "file_lines l = [l]"
  using assms by (simp add: file_lines_def universal_newlines_plain lines_from_last)

lemma read_lines_records:
  assumes "list_all2
      (\<lambda>l r. case r of
                None \<Rightarrow> py_strip l = []
              | Some (v, ev, s1, e1, s2, e2) \<Rightarrow>
                  py_strip l \<noteq> [] \<and>
                  (\<exists>t1 t2 t3 t4 rest.
                     py_split (py_strip l) = v # ev # t1 # t2 # t3 # t4 # rest \<and>
                     py_int t1 = Inr s1 \<and> py_int t2 = Inr e1 \<and>
                     py_int t3 = Inr s2 \<and> py_int t4 = Inr e2))
      ls recs"
  shows "read_lines ls acc =
     Inr (foldl (\<lambda>acc r. case r of
                   None \<Rightarrow> acc
                 | Some (v, ev, s1, e1, s2, e2) \<Rightarrow>
                     AList.update v
                       \<lparr>event = ev,
                        intervals = (if s1 \<noteq> - 1 \<and> e1 \<noteq> - 1 then [(s1, e1)] else []) @
                                    (if s2 \<noteq> - 1 \<and> e2 \<noteq> - 1 then [(s2, e2)] else [])\<rparr> acc)
            acc recs)"
  using assms
proof (induction ls recs arbitrary: acc rule: list_all2_induct)
  case Nil
  then show ?case by simp
next
  case (Cons l ls r recs)
  show ?case
  proof (cases r)
    case None
    with Cons.hyps(1) have "parse_line l = Inr None" by (simp add: parse_line_blank)
    then show ?thesis using Cons.IH None by simp
  next
    case (Some t)
    obtain v ev s1 e1 s2 e2 where t: "t = (v, ev, s1, e1, s2, e2)" by (cases t)
    from Cons.hyps(1) Some t obtain t1 t2 t3 t4 rest where
      "py_strip l \<noteq> []" "py_split (py_strip l) = v # ev # t1 # t2 # t3 # t4 # rest"
      "py_int t1 = Inr s1" "py_int t2 = Inr e1" "py_int t3 = Inr s2" "py_int t4 = Inr e2"
      by auto
    then have "parse_line l = Inr (Some (v, \<lparr>event = ev, intervals =
            (if s1 \<noteq> - 1 \<and> e1 \<noteq> - 1 then [(s1, e1)] else []) @
            (if s2 \<noteq> - 1 \<and> e2 \<noteq> - 1 then [(s2, e2)] else [])\<rparr>))"
      by (rule parse_line_tokens)
    then show ?thesis using Cons.IH Some t by simp
  qed
qed

lemma parse_line_error:
  assumes "py_strip l \<noteq> []"
    and "length (py_split (py_strip l)) < 6 \<or>
         (\<exists>i \<in> {2, 3, 4, 5}. py_int (py_split (py_strip l) ! i) = Inl ValueError)"
  shows "parse_line l =
     Inl (if \<exists>i \<in> {2, 3, 4, 5}. i < length (py_split (py_strip l)) \<and>
               py_int (py_split (py_strip l) ! i) = Inl ValueError
          then ValueError else IndexError)"
proof -
  define parts where "parts = py_split (py_strip l)"
  have c: "\<And>i. py_int (parts ! i) = Inl ValueError \<or> (\<exists>n. py_int (parts ! i) = Inr n)"
    by (simp add: py_int_def Let_def)
  have p: "parse_line l =
        bind (py_index parts 0) (\<lambda>video_name.
        bind (py_index parts 1) (\<lambda>event_name.
        bind (py_index parts 2) (\<lambda>p2. bind (py_int p2) (\<lambda>start1.
        bind (py_index parts 3) (\<lambda>p3. bind (py_int p3) (\<lambda>end1.
        bind (py_index parts 4) (\<lambda>p4. bind (py_int p4) (\<lambda>start2.
        bind (py_index parts 5) (\<lambda>p5. bind (py_int p5) (\<lambda>end2.
          Inr (Some (video_name,
            \<lparr>event = event_name,
             intervals =
               (if start1 \<noteq> - 1 \<and> end1 \<noteq> - 1 then [(start1, end1)] else []) @
               (if start2 \<noteq> - 1 \<and> end2 \<noteq> - 1 then [(start2, end2)] else [])\<rparr>))))))))))))"
    using assms(1) by (simp add: parse_line_def Let_def parts_def)
  have bad: "length parts < 6 \<or> py_int (parts ! 2) = Inl ValueError \<or>
     py_int (parts ! 3) = Inl ValueError \<or> py_int (parts ! 4) = Inl ValueError \<or>
     py_int (parts ! 5) = Inl ValueError"
    using assms(2) by (auto simp: parts_def)
  consider "length parts < 2" | "length parts = 2" | "length parts = 3" | "length parts = 4"
    | "length parts = 5" | "6 \<le> length parts" by linarith
  then have "parse_line l =
     Inl (if (2 < length parts \<and> py_int (parts ! 2) = Inl ValueError) \<or>
             (3 < length parts \<and> py_int (parts ! 3) = Inl ValueError) \<or>
             (4 < length parts \<and> py_int (parts ! 4) = Inl ValueError) \<or>
             (5 < length parts \<and> py_int (parts ! 5) = Inl ValueError)
          then ValueError else IndexError)"
  proof cases
    case 1
    then show ?thesis unfolding p by (auto simp: bind_def py_index_def)
  next
    case 2
    then show ?thesis unfolding p by (simp add: bind_def py_index_def)
  next
    case 3
    then show ?thesis unfolding p using c [of 2] by (auto simp: bind_def py_index_def)
  next
    case 4
    then show ?thesis unfolding p using c [of 2] c [of 3] by (auto simp: bind_def py_index_def)
  next
    case 5
    then show ?thesis unfolding p using c [of 2] c [of 3] c [of 4]
      by (auto simp: bind_def py_index_def)
  next
    case 6
    then show ?thesis unfolding p using c [of 2] c [of 3] c [of 4] c [of 5] bad
      by (auto simp: bind_def py_index_def)
  qed
  then show ?thesis by (simp add: parts_def)
qed

lemma read_lines_first_error:
  assumes "\<forall>p \<in> set pre. \<not> (\<exists>e. parse_line p = Inl e)" and "parse_line l = Inl e"
  shows "read_lines (pre @ l # post) acc = Inl e"
  using assms by (induction pre arbitrary: acc) (auto split: sum.splits option.splits)

lemma parse_line_error_kind: "parse_line l = Inl e \<Longrightarrow> e = IndexError \<or> e = ValueError"
proof -
  assume a: "parse_line l = Inl e"
  then have "\<exists>e. parse_line l = Inl e" by blast
  then have "py_strip l \<noteq> []" and "length (py_split (py_strip l)) < 6 \<or>
         (\<exists>i \<in> {2, 3, 4, 5}. py_int (py_split (py_strip l) ! i) = Inl ValueError)"
    unfolding parse_line_Inl_iff by blast+
  from parse_line_error [OF this] a show ?thesis by (simp split: if_splits)
qed

lemma read_lines_error_kind: "read_lines ls acc = Inl e \<Longrightarrow> e = IndexError \<or> e = ValueError"
  by (induction ls arbitrary: acc)
     (auto split: sum.splits option.splits dest: parse_line_error_kind)

text \<open>
  C4. For every annotation text whose lines are each blank or made of a video name, an
  event and four integers \<open>start1 end1 start2 end2\<close> (\<open>recs\<close> lists, line by line,
  \<open>None\<close> for a blank line and these six values otherwise), reading the text returns the
  mapping built from the non-blank lines in order, blank lines skipped: under the video
  name, the event and a list of zero, one or two intervals, \<open>(start1, end1)\<close> exactly
  when neither of the two is \<open>-1\<close>, then \<open>(start2, end2)\<close> under the same rule, each
  decided on its own. The lines of a text are its pieces up to and including each line
  end (\<open>LF\<close>, \<open>CR LF\<close> or a lone \<open>CR\<close>, all read as \<open>LF\<close>), and a last piece
  without line end if it is not empty. The same holds step by step for the loop over any
  list of lines. So the line \<open>-1 -1 10 20\<close> gives \<open>[(10, 20)]\<close>, the line
  \<open>-1 -1 -1 -1\<close> gives the empty list, and a text of four lines with the three kinds of
  line end, one of them blank, gives the two videos it names.
\<close>

theorem read_annotations_intervals:
  "(list_all2
      (\<lambda>l r. case r of
                None \<Rightarrow> py_strip l = []
              | Some (v, ev, s1, e1, s2, e2) \<Rightarrow>
                  py_strip l \<noteq> [] \<and>
                  (\<exists>t1 t2 t3 t4 rest.
                     py_split (py_strip l) = v # ev # t1 # t2 # t3 # t4 # rest \<and>
                     py_int t1 = Inr s1 \<and> py_int t2 = Inr e1 \<and>
                     py_int t3 = Inr s2 \<and> py_int t4 = Inr e2))
      (file_lines content) recs
    \<longrightarrow> read_annotations content =
          Inr (foldl (\<lambda>acc r. case r of
                        None \<Rightarrow> acc
                      | Some (v, ev, s1, e1, s2, e2) \<Rightarrow>
                          AList.update v
                            \<lparr>event = ev,
                             intervals =
                               (if s1 \<noteq> - 1 \<and> e1 \<noteq> - 1 then [(s1, e1)] else []) @
                               (if s2 \<noteq> - 1 \<and> e2 \<noteq> - 1 then [(s2, e2)] else [])\<rparr> acc)
                 [] recs))
   \<and> file_lines [] = []
   \<and> (CHR 0x0D \<notin> set line \<and> CHR 0x0A \<notin> set line \<longrightarrow>
        file_lines (line @ CHR 0x0A # tail) = (line @ [CHR 0x0A]) # file_lines tail
        \<and> file_lines (line @ CHR 0x0D # CHR 0x0A # tail) = (line @ [CHR 0x0A]) # file_lines tail
        \<and> (tail = [] \<or> hd tail \<noteq> CHR 0x0A \<longrightarrow>
             file_lines (line @ CHR 0x0D # tail) = (line @ [CHR 0x0A]) # file_lines tail)
        \<and> (line \<noteq> [] \<longrightarrow> file_lines line = [line]))
   \<and> (py_strip l = [] \<longrightarrow> read_lines (l # ls) acc = read_lines ls acc)
   \<and> (py_strip l \<noteq> [] \<and> py_split (py_strip l) = v # ev # t1 # t2 # t3 # t4 # rest
        \<and> py_int t1 = Inr s1 \<and> py_int t2 = Inr e1 \<and> py_int t3 = Inr s2 \<and> py_int t4 = Inr e2
      \<longrightarrow> read_lines (l # ls) acc =
            read_lines ls (AList.update v
              \<lparr>event = ev,
               intervals = (if s1 \<noteq> - 1 \<and> e1 \<noteq> - 1 then [(s1, e1)] else []) @
                           (if s2 \<noteq> - 1 \<and> e2 \<noteq> - 1 then [(s2, e2)] else [])\<rparr> acc))
   \<and> read_annotations ''Fighting003_x264.mp4 Fighting -1 -1 10 20'' =
        Inr [(''Fighting003_x264.mp4'', \<lparr>event = ''Fighting'', intervals = [(10, 20)]\<rparr>)]
   \<and> read_annotations ''Normal_Videos_015_x264.mp4 Normal -1 -1 -1 -1'' =
        Inr [(''Normal_Videos_015_x264.mp4'', \<lparr>event = ''Normal'', intervals = []\<rparr>)]
   \<and> read_annotations
        (''Fighting003_x264.mp4 Fighting -1 -1 10 20'' @ [CHR 0x0D, CHR 0x0A] @
         ''  '' @ [CHR 0x0A] @
         ''Normal_Videos_015_x264.mp4 Normal -1 -1 -1 -1'' @ [CHR 0x0D] @
         ''Fighting004_x264.mp4 Fighting 1820 3103 5 -1'') =
        Inr [(''Fighting003_x264.mp4'', \<lparr>event = ''Fighting'', intervals = [(10, 20)]\<rparr>),
             (''Normal_Videos_015_x264.mp4'', \<lparr>event = ''Normal'', intervals = []\<rparr>),
             (''Fighting004_x264.mp4'',
              \<lparr>event = ''Fighting'', intervals = [(1820, 3103)]\<rparr>)]"
proof (intro conjI impI)
  assume "list_all2
      (\<lambda>l r. case r of
                None \<Rightarrow> py_strip l = []
              | Some (v, ev, s1, e1, s2, e2) \<Rightarrow>
                  py_strip l \<noteq> [] \<and>
                  (\<exists>t1 t2 t3 t4 rest.
                     py_split (py_strip l) = v # ev # t1 # t2 # t3 # t4 # rest \<and>
                     py_int t1 = Inr s1 \<and> py_int t2 = Inr e1 \<and>
                     py_int t3 = Inr s2 \<and> py_int t4 = Inr e2))
      (file_lines content) recs"
  then show "read_annotations content =
          Inr (foldl (\<lambda>acc r. case r of
                        None \<Rightarrow> acc
                      | Some (v, ev, s1, e1, s2, e2) \<Rightarrow>
                          AList.update v
                            \<lparr>event = ev,
                             intervals =
                               (if s1 \<noteq> - 1 \<and> e1 \<noteq> - 1 then [(s1, e1)] else []) @
                               (if s2 \<noteq> - 1 \<and> e2 \<noteq> - 1 then [(s2, e2)] else [])\<rparr> acc)
                 [] recs)"
    unfolding read_annotations_def by (rule read_lines_records)
next
  show "file_lines [] = []" by (rule file_lines_Nil)
next
  assume "CHR 0x0D \<notin> set line \<and> CHR 0x0A \<notin> set line"
  then show "file_lines (line @ CHR 0x0A # tail) = (line @ [CHR 0x0A]) # file_lines tail"
    by (simp add: file_lines_LF)
next
  assume "CHR 0x0D \<notin> set line \<and> CHR 0x0A \<notin> set line"
  then show "file_lines (line @ CHR 0x0D # CHR 0x0A # tail) = (line @ [CHR 0x0A]) # file_lines tail"
    by (simp add: file_lines_CRLF)
next
  assume "CHR 0x0D \<notin> set line \<and> CHR 0x0A \<notin> set line" and "tail = [] \<or> hd tail \<noteq> CHR 0x0A"
  then show "file_lines (line @ CHR 0x0D # tail) = (line @ [CHR 0x0A]) # file_lines tail"
    using file_lines_CR [of line tail] by blast
next
  assume "CHR 0x0D \<notin> set line \<and> CHR 0x0A \<notin> set line" and "line \<noteq> []"
  then show "file_lines line = [line]"
    using file_lines_last [of line] by blast
next
  assume "py_strip l = []"
  then show "read_lines (l # ls) acc = read_lines ls acc"
    by (simp add: parse_line_blank)
next
  assume h: "py_strip l \<noteq> [] \<and> py_split (py_strip l) = v # ev # t1 # t2 # t3 # t4 # rest
        \<and> py_int t1 = Inr s1 \<and> py_int t2 = Inr e1 \<and> py_int t3 = Inr s2 \<and> py_int t4 = Inr e2"
  then have "parse_line l = Inr (Some (v, \<lparr>event = ev, intervals =
            (if s1 \<noteq> - 1 \<and> e1 \<noteq> - 1 then [(s1, e1)] else []) @
            (if s2 \<noteq> - 1 \<and> e2 \<noteq> - 1 then [(s2, e2)] else [])\<rparr>))"
    using parse_line_tokens [of l v ev t1 t2 t3 t4 rest s1 e1 s2 e2] by blast
  then show "read_lines (l # ls) acc =
            read_lines ls (AList.update v
              \<lparr>event = ev,
               intervals = (if s1 \<noteq> - 1 \<and> e1 \<noteq> - 1 then [(s1, e1)] else []) @
                           (if s2 \<noteq> - 1 \<and> e2 \<noteq> - 1 then [(s2, e2)] else [])\<rparr> acc)"
    by simp
next
  show "read_annotations ''Fighting003_x264.mp4 Fighting -1 -1 10 20'' =
        Inr [(''Fighting003_x264.mp4'', \<lparr>event = ''Fighting'', intervals = [(10, 20)]\<rparr>)]"
    by code_simp
next
  show "read_annotations ''Normal_Videos_015_x264.mp4 Normal -1 -1 -1 -1'' =
        Inr [(''Normal_Videos_015_x264.mp4'', \<lparr>event = ''Normal'', intervals = []\<rparr>)]"
    by code_simp
next
  show "read_annotations
        (''Fighting003_x264.mp4 Fighting -1 -1 10 20'' @ [CHR 0x0D, CHR 0x0A] @
         ''  '' @ [CHR 0x0A] @
         ''Normal_Videos_015_x264.mp4 Normal -1 -1 -1 -1'' @ [CHR 0x0D] @
         ''Fighting004_x264.mp4 Fighting 1820 3103 5 -1'') =
        Inr [(''Fighting003_x264.mp4'', \<lparr>event = ''Fighting'', intervals = [(10, 20)]\<rparr>),
             (''Normal_Videos_015_x264.mp4'', \<lparr>event = ''Normal'', intervals = []\<rparr>),
             (''Fighting004_x264.mp4'',
              \<lparr>event = ''Fighting'', intervals = [(1820, 3103)]\<rparr>)]"
    by code_simp
qed

theorem read_annotations_intervals_witness:
  "read_annotations (''  '' @ [CHR 0x0A] @ ''v.mp4 Fighting 5 -1 10 20'' @ [CHR 0x0A] @
                     ''v.mp4 Normal 7 9 -1 -1'') =
     Inr [(''v.mp4'', \<lparr>event = ''Normal'', intervals = [(7, 9)]\<rparr>)]"
proof -
  let ?text = "''  '' @ [CHR 0x0A] @ ''v.mp4 Fighting 5 -1 10 20'' @ [CHR 0x0A] @
               ''v.mp4 Normal 7 9 -1 -1''"
  let ?l1 = "''  '' @ [CHR 0x0A]"
  let ?l2 = "''v.mp4 Fighting 5 -1 10 20'' @ [CHR 0x0A]"
  let ?l3 = "''v.mp4 Normal 7 9 -1 -1''"
  have fl: "file_lines ?text = [?l1, ?l2, ?l3]" by code_simp
  have b: "py_strip ?l1 = []" by code_simp
  have n: "py_strip ?l2 \<noteq> []" "py_strip ?l3 \<noteq> []" by code_simp+
  have t: "py_split (py_strip ?l2) = [''v.mp4'', ''Fighting'', ''5'', ''-1'', ''10'', ''20'']"
    "py_split (py_strip ?l3) = [''v.mp4'', ''Normal'', ''7'', ''9'', ''-1'', ''-1'']"
    by code_simp+
  have i: "py_int ''5'' = Inr 5" "py_int ''-1'' = Inr (- 1)" "py_int ''10'' = Inr 10"
    "py_int ''20'' = Inr 20" "py_int ''7'' = Inr 7" "py_int ''9'' = Inr 9" by code_simp+
  have r: "list_all2
      (\<lambda>l r. case r of
                None \<Rightarrow> py_strip l = []
              | Some (v, ev, s1, e1, s2, e2) \<Rightarrow>
                  py_strip l \<noteq> [] \<and>
                  (\<exists>t1 t2 t3 t4 rest.
                     py_split (py_strip l) = v # ev # t1 # t2 # t3 # t4 # rest \<and>
                     py_int t1 = Inr s1 \<and> py_int t2 = Inr e1 \<and>
                     py_int t3 = Inr s2 \<and> py_int t4 = Inr e2))
      (file_lines ?text)
      [None, Some (''v.mp4'', ''Fighting'', 5, - 1, 10, 20),
       Some (''v.mp4'', ''Normal'', 7, 9, - 1, - 1)]"
    unfolding fl using b n t i by simp
  show ?thesis
    using read_annotations_intervals
      [where content = "?text"
         and recs = "[None, Some (''v.mp4'', ''Fighting'', 5, - 1, 10, 20),
                      Some (''v.mp4'', ''Normal'', 7, 9, - 1, - 1)]"] r
    by simp
qed

text \<open>
  C5, as the code has it. Reading an annotation text raises, and so returns no mapping at
  all, exactly when the text has a non-blank line with fewer than six tokens or with a
  third, fourth, fifth or sixth token that \<open>int\<close> refuses (a token that is not a decimal
  integer literal, or one of more digits than \<open>int\<close> converts). The exception is
  IndexError or ValueError, never another one: that of the first such line, which is
  ValueError when one of the interval tokens present on the line is refused, and
  IndexError otherwise (a token is missing and every interval token present is an
  integer). The source has no error type of its own and never counts the tokens, so a
  line with more than six tokens is read like its first six.
\<close>

theorem read_annotations_rejects:
  "((\<exists>e. read_annotations content = Inl e) \<longleftrightarrow>
     (\<exists>l \<in> set (file_lines content).
        py_strip l \<noteq> [] \<and>
        (length (py_split (py_strip l)) < 6 \<or>
         (\<exists>i \<in> {2, 3, 4, 5}. py_int (py_split (py_strip l) ! i) = Inl ValueError))))
   \<and> (read_annotations content = Inl e \<longrightarrow> e = IndexError \<or> e = ValueError)
   \<and> (file_lines content = pre @ l # post
        \<and> (\<forall>p \<in> set pre.
              \<not> (py_strip p \<noteq> [] \<and>
                 (length (py_split (py_strip p)) < 6 \<or>
                  (\<exists>i \<in> {2, 3, 4, 5}. py_int (py_split (py_strip p) ! i) = Inl ValueError))))
        \<and> py_strip l \<noteq> []
        \<and> (length (py_split (py_strip l)) < 6 \<or>
            (\<exists>i \<in> {2, 3, 4, 5}. py_int (py_split (py_strip l) ! i) = Inl ValueError))
      \<longrightarrow> read_annotations content =
            Inl (if \<exists>i \<in> {2, 3, 4, 5}. i < length (py_split (py_strip l)) \<and>
                      py_int (py_split (py_strip l) ! i) = Inl ValueError
                 then ValueError else IndexError))"
proof (intro conjI impI)
  show "(\<exists>e. read_annotations content = Inl e) \<longleftrightarrow>
     (\<exists>l \<in> set (file_lines content).
        py_strip l \<noteq> [] \<and>
        (length (py_split (py_strip l)) < 6 \<or>
         (\<exists>i \<in> {2, 3, 4, 5}. py_int (py_split (py_strip l) ! i) = Inl ValueError)))"
    unfolding read_annotations_def read_lines_Inl_iff parse_line_Inl_iff ..
next
  assume "read_annotations content = Inl e"
  then show "e = IndexError \<or> e = ValueError"
    unfolding read_annotations_def by (rule read_lines_error_kind)
next
  assume h: "file_lines content = pre @ l # post
        \<and> (\<forall>p \<in> set pre.
              \<not> (py_strip p \<noteq> [] \<and>
                 (length (py_split (py_strip p)) < 6 \<or>
                  (\<exists>i \<in> {2, 3, 4, 5}. py_int (py_split (py_strip p) ! i) = Inl ValueError))))
        \<and> py_strip l \<noteq> []
        \<and> (length (py_split (py_strip l)) < 6 \<or>
            (\<exists>i \<in> {2, 3, 4, 5}. py_int (py_split (py_strip l) ! i) = Inl ValueError))"
  then have pre: "\<forall>p \<in> set pre. \<not> (\<exists>e. parse_line p = Inl e)"
    unfolding parse_line_Inl_iff by blast
  from h have "parse_line l =
     Inl (if \<exists>i \<in> {2, 3, 4, 5}. i < length (py_split (py_strip l)) \<and>
               py_int (py_split (py_strip l) ! i) = Inl ValueError
          then ValueError else IndexError)"
    by (intro parse_line_error) blast+
  from read_lines_first_error [OF pre this] h
  show "read_annotations content =
            Inl (if \<exists>i \<in> {2, 3, 4, 5}. i < length (py_split (py_strip l)) \<and>
                      py_int (py_split (py_strip l) ! i) = Inl ValueError
                 then ValueError else IndexError)"
    by (simp add: read_annotations_def)
qed

theorem read_annotations_rejects_witness:
  "read_annotations ''a.mp4 Fighting 1 2 3'' = Inl IndexError
   \<and> read_annotations (''b.mp4 Normal -1 -1 -1 -1'' @ [CHR 0x0A] @ ''a.mp4 Fighting 1 2 3 x'') =
       Inl ValueError"
proof -
  let ?short = "''a.mp4 Fighting 1 2 3''"
  let ?good = "''b.mp4 Normal -1 -1 -1 -1'' @ [CHR 0x0A]"
  let ?bad = "''a.mp4 Fighting 1 2 3 x''"
  have l1: "file_lines ?short = [] @ ?short # []" by code_simp
  have a1: "py_strip ?short \<noteq> []" by code_simp
  have s1: "py_split (py_strip ?short) = [''a.mp4'', ''Fighting'', ''1'', ''2'', ''3'']"
    by code_simp
  have l2: "file_lines (?good @ ?bad) = [?good] @ ?bad # []" by code_simp
  have g: "py_strip ?good \<noteq> []"
    "py_split (py_strip ?good) = [''b.mp4'', ''Normal'', ''-1'', ''-1'', ''-1'', ''-1'']"
    by code_simp+
  have a2: "py_strip ?bad \<noteq> []" by code_simp
  have s2: "py_split (py_strip ?bad) = [''a.mp4'', ''Fighting'', ''1'', ''2'', ''3'', ''x'']"
    by code_simp
  have i: "py_int ''1'' = Inr 1" "py_int ''2'' = Inr 2" "py_int ''3'' = Inr 3"
    "py_int ''-1'' = Inr (- 1)" "py_int ''x'' = Inl ValueError" by code_simp+
  have r1: "read_annotations ?short = Inl IndexError"
    using read_annotations_rejects
      [where content = "?short" and pre = "[]" and l = "?short" and post = "[]"]
      l1 a1 s1 i by simp
  have r2: "read_annotations (?good @ ?bad) = Inl ValueError"
    using read_annotations_rejects
      [where content = "?good @ ?bad" and pre = "[?good]" and l = "?bad" and post = "[]"]
      l2 g a2 s2 i by simp
  show ?thesis using r1 r2 by simp
qed

text \<open>
  C5 as the specification words it fails at a line of seven tokens: it is read
  without any error, the seventh token ignored.
\<close>

theorem seven_tokens_accepted:
  "length (py_split (py_strip ''a.mp4 Fighting 1 2 3 4 extra'')) = 7
   \<and> read_annotations ''a.mp4 Fighting 1 2 3 4 extra'' =
       Inr [(''a.mp4'', \<lparr>event = ''Fighting'', intervals = [(1, 2), (3, 4)]\<rparr>)]"
  by code_simp

section \<open>Properties of the keypoint detection\<close>

lemma extend_points_flat:
  "extend_points (map (\<lambda>(x, y). NDArray [Scalar x, Scalar y]) pts) coords =
     Inr (coords @ concat (map (\<lambda>(x, y). [PyFloat x, PyFloat y]) pts))"
  by (induction pts arbitrary: coords)
     (auto simp: bind_def nd_index_def py_index_def py_float_def)

lemma length_concat_points:
  "length (concat (map (\<lambda>(x, y). [PyFloat x, PyFloat y]) pts)) = 2 * length pts"
  by (induction pts) auto

lemma person_coords_wrapped:
  "length pts \<le> 17 \<Longrightarrow>
   person_coords (wrapped_points pts) =
     Inr (concat (map (\<lambda>(x, y). [PyFloat x, PyFloat y]) pts) @
          replicate (34 - 2 * length pts) (PyInt 0))"
  by (simp add: person_coords_def wrapped_points_def flat_points_def shape0_def nd_index_def
      py_index_def nd_iter_def bind_def extend_points_flat length_concat_points)

lemma person_coords_flat:
  "length pts \<le> 17 \<Longrightarrow> length pts \<noteq> 1 \<Longrightarrow>
   person_coords (flat_points pts) =
     Inr (concat (map (\<lambda>(x, y). [PyFloat x, PyFloat y]) pts) @
          replicate (34 - 2 * length pts) (PyInt 0))"
  by (simp add: person_coords_def flat_points_def shape0_def nd_index_def
      py_index_def nd_iter_def bind_def extend_points_flat length_concat_points)


lemma person_coords_agree:
  "length pts \<noteq> 1 \<Longrightarrow> person_coords (flat_points pts) = person_coords (wrapped_points pts)"
  by (simp add: person_coords_def wrapped_points_def flat_points_def shape0_def nd_index_def
      py_index_def nd_iter_def bind_def)

lemma collect_persons_map:
  assumes "\<forall>p \<in> set ps. person_coords (f p) = Inr (g p)"
  shows "collect_persons (map f ps) acc = Inr (acc @ map g ps)"
  using assms by (induction ps arbitrary: acc) (auto simp: bind_def)

lemma collect_persons_length:
  "collect_persons ps acc = Inr ds \<Longrightarrow> length ds = length acc + length ps"
  by (induction ps arbitrary: acc) (auto simp: bind_def split: sum.splits)

lemma detect_keypoints_nonempty: "detect_keypoints pm f = Inr ds \<Longrightarrow> ds \<noteq> []"
  by (auto simp: detect_keypoints_def bind_def split: sum.splits if_splits)

text \<open>
  C2. When the detector finds no person (it returns no result at all, or a first result
  whose keypoints are \<open>None\<close> or hold no person), \<open>detect_keypoints\<close> returns a list of
  exactly one vector, and this vector is 34 zeros; it never returns the empty list.
\<close>

theorem detect_keypoints_no_person:
  assumes "pose_model frame = Inr results"
    and "results = [] \<or>
         (\<exists>detected others. results = detected # others \<and>
            (keypoints detected = None \<or> keypoints detected = Some []))"
  shows "detect_keypoints pose_model frame = Inr [replicate 34 (PyInt 0)]
         \<and> length (replicate 34 (PyInt 0)) = 34
         \<and> detect_keypoints pose_model frame \<noteq> Inr []"
  using assms by (auto simp: detect_keypoints_def bind_def)

theorem detect_keypoints_no_person_witness:
  "detect_keypoints (\<lambda>u::unit. Inr []) () = Inr [replicate 34 (PyInt 0)]
   \<and> detect_keypoints (\<lambda>u::unit. Inr [\<lparr>keypoints = None\<rparr>]) () = Inr [replicate 34 (PyInt 0)]
   \<and> detect_keypoints (\<lambda>u::unit. Inr [\<lparr>keypoints = Some []\<rparr>]) () = Inr [replicate 34 (PyInt 0)]"
  using detect_keypoints_no_person [of "\<lambda>u::unit. Inr []" "()" "[]"]
    detect_keypoints_no_person [of "\<lambda>u::unit. Inr [\<lparr>keypoints = None\<rparr>]" "()" "[\<lparr>keypoints = None\<rparr>]"]
    detect_keypoints_no_person [of "\<lambda>u::unit. Inr [\<lparr>keypoints = Some []\<rparr>]" "()" "[\<lparr>keypoints = Some []\<rparr>]"]
  by simp

text \<open>
  C3. When the first result holds \<open>k \<ge> 1\<close> persons of at most 17 points each,
  \<open>detect_keypoints\<close> returns \<open>k\<close> vectors in the order of the persons; each is the
  person's coordinates \<open>x, y\<close> in the order of the points, followed by zeros up to the
  length 34. A person's array is of the shape \<open>(1, K, 2)\<close> the detector delivers
  (\<open>w\<close> true), for any \<open>K \<le> 17\<close>, or of the flat shape \<open>(K, 2)\<close> with \<open>K \<noteq> 1\<close>.
\<close>

theorem detect_keypoints_persons:
  assumes "pose_model frame = Inr (detected # others)"
    and "keypoints detected =
           Some (map (\<lambda>(w, pts). if w then wrapped_points pts else flat_points pts) persons)"
    and "persons \<noteq> []"
    and "\<forall>(w, pts) \<in> set persons. length pts \<le> 17 \<and> (w \<or> length pts \<noteq> 1)"
  shows "detect_keypoints pose_model frame =
           Inr (map (\<lambda>(w, pts). concat (map (\<lambda>(x, y). [PyFloat x, PyFloat y]) pts) @
                                 replicate (34 - 2 * length pts) (PyInt 0)) persons)
         \<and> (\<forall>(w, pts) \<in> set persons.
               length (concat (map (\<lambda>(x, y). [PyFloat x, PyFloat y]) pts) @
                       replicate (34 - 2 * length pts) (PyInt 0)) = 34)"
proof -
  let ?f = "\<lambda>(w, pts). if w then wrapped_points pts else flat_points pts"
  let ?g = "\<lambda>(w :: bool, pts). concat (map (\<lambda>(x, y). [PyFloat x, PyFloat y]) pts) @
                                 replicate (34 - 2 * length pts) (PyInt 0)"
  have each: "\<forall>p \<in> set persons. person_coords (?f p) = Inr (?g p)"
    using assms(4) by (auto simp: person_coords_wrapped person_coords_flat)
  have "collect_persons (map ?f persons) [] = Inr ([] @ map ?g persons)"
    using each by (rule collect_persons_map)
  then have "detect_keypoints pose_model frame = Inr (map ?g persons)"
    using assms(1,2,3) by (simp add: detect_keypoints_def bind_def)
  moreover have "\<forall>(w, pts) \<in> set persons. length (?g (w, pts)) = 34"
    using assms(4) by (auto simp: length_concat_points)
  ultimately show ?thesis by simp
qed

theorem detect_keypoints_persons_witness:
  "detect_keypoints
     (\<lambda>u::unit. Inr [\<lparr>keypoints = Some [wrapped_points [(1, 2), (3, 4)], flat_points [],
                                         wrapped_points [(5, 6)]]\<rparr>]) () =
     Inr [[PyFloat 1, PyFloat 2, PyFloat 3, PyFloat 4] @ replicate 30 (PyInt 0),
          replicate 34 (PyInt 0),
          [PyFloat 5, PyFloat 6] @ replicate 32 (PyInt 0)]"
  using detect_keypoints_persons
    [of "\<lambda>u::unit. Inr [\<lparr>keypoints = Some [wrapped_points [(1, 2), (3, 4)], flat_points [],
                                         wrapped_points [(5, 6)]]\<rparr>]" "()"
        "\<lparr>keypoints = Some [wrapped_points [(1, 2), (3, 4)], flat_points [],
                                         wrapped_points [(5, 6)]]\<rparr>" "[]"
        "[(True, [(1, 2), (3, 4)]), (False, []), (True, [(5, 6)])]"]
  by simp




section \<open>Properties of the video pipeline\<close>

lemma header_names:
  "header =
     [PyStr ''frame'', PyStr ''person_id'',
      PyStr ''x1'', PyStr ''y1'', PyStr ''x2'', PyStr ''y2'', PyStr ''x3'', PyStr ''y3'',
      PyStr ''x4'', PyStr ''y4'', PyStr ''x5'', PyStr ''y5'', PyStr ''x6'', PyStr ''y6'',
      PyStr ''x7'', PyStr ''y7'', PyStr ''x8'', PyStr ''y8'', PyStr ''x9'', PyStr ''y9'',
      PyStr ''x10'', PyStr ''y10'', PyStr ''x11'', PyStr ''y11'', PyStr ''x12'', PyStr ''y12'',
      PyStr ''x13'', PyStr ''y13'', PyStr ''x14'', PyStr ''y14'', PyStr ''x15'', PyStr ''y15'',
      PyStr ''x16'', PyStr ''y16'', PyStr ''x17'', PyStr ''y17'',
      PyStr ''label'']"
  by code_simp

lemma read_frames_all:
  assumes "map (detect_keypoints pm) fs = map Inr dets"
  shows "read_frames pm ev ivs fs (int k) rows =
           (None, int k + int (length fs),
            rows @ concat (map (\<lambda>(i, d). frame_rows (int i) d (frame_label ev (int i) ivs))
                             (enumerate (Suc k) dets)))"
  using assms
proof (induction fs arbitrary: dets k rows)
  case Nil
  then show ?case by simp
next
  case (Cons f fs)
  then obtain d ds where dets: "dets = d # ds" and d: "detect_keypoints pm f = Inr d"
    and ds: "map (detect_keypoints pm) fs = map Inr ds"
    by (cases dets) auto
  have k: "int k + 1 = int (Suc k)" by simp
  show ?case
    unfolding dets read_frames.simps d sum.case k Cons.IH [OF ds]
    by simp
qed

lemma all_detections_nonempty:
  "map (detect_keypoints pm) fs = map Inr dets \<Longrightarrow> \<forall>d \<in> set dets. d \<noteq> []"
proof (induction fs arbitrary: dets)
  case Nil
  then show ?case by simp
next
  case (Cons f fs)
  then show ?case by (cases dets) (auto dest: detect_keypoints_nonempty)
qed

text \<open>
  C6. For a video that opens and on whose frames \<open>detect_keypoints\<close> returns (\<open>dets\<close>
  lists what it returned, frame by frame), the table written is the header row
  \<open>frame, person_id, x1, y1, ..., x17, y17, label\<close> followed by one row per frame and
  person: the frames numbered from 1 upwards in reading order, each with at least one
  row, and inside a frame the persons numbered from 0 upwards, each row holding the frame
  number, the person number, the person's vector and the label of the frame.
\<close>

theorem process_video_table:
  assumes "isOpened cap"
    and "map (detect_keypoints pose_model) (frames cap) = map Inr dets"
  shows "csv (process_video pose_model cap video_path ev ivs output_csv_path) =
           Some ([PyStr ''frame'', PyStr ''person_id'',
                  PyStr ''x1'', PyStr ''y1'', PyStr ''x2'', PyStr ''y2'', PyStr ''x3'', PyStr ''y3'',
                  PyStr ''x4'', PyStr ''y4'', PyStr ''x5'', PyStr ''y5'', PyStr ''x6'', PyStr ''y6'',
                  PyStr ''x7'', PyStr ''y7'', PyStr ''x8'', PyStr ''y8'', PyStr ''x9'', PyStr ''y9'',
                  PyStr ''x10'', PyStr ''y10'', PyStr ''x11'', PyStr ''y11'', PyStr ''x12'',
                  PyStr ''y12'', PyStr ''x13'', PyStr ''y13'', PyStr ''x14'', PyStr ''y14'',
                  PyStr ''x15'', PyStr ''y15'', PyStr ''x16'', PyStr ''y16'', PyStr ''x17'',
                  PyStr ''y17'', PyStr ''label'']
                 # concat (map (\<lambda>(i, d).
                             map (\<lambda>(j, kps). [PyInt (int i), PyInt (int j)] @ kps @
                                              [PyInt (frame_label ev (int i) ivs)])
                               (enumerate 0 d))
                           (enumerate 1 dets)))
         \<and> (\<forall>d \<in> set dets. d \<noteq> [])
         \<and> raised (process_video pose_model cap video_path ev ivs output_csv_path) = None"
proof -
  have "read_frames pose_model ev ivs (frames cap) (int 0) [header] =
          (None, int 0 + int (length (frames cap)),
           [header] @ concat (map (\<lambda>(i, d). frame_rows (int i) d (frame_label ev (int i) ivs))
                               (enumerate (Suc 0) dets)))"
    using assms(2) by (rule read_frames_all)
  then have "process_video pose_model cap video_path ev ivs output_csv_path =
          \<lparr>csv = Some (header # concat (map (\<lambda>(i, d). frame_rows (int i) d (frame_label ev (int i) ivs))
                               (enumerate (Suc 0) dets))),
           released = True,
           printed = [Processed video_path output_csv_path (int (length (frames cap)))],
           raised = None\<rparr>"
    using assms(1) by (simp add: process_video_def)
  then show ?thesis
    using all_detections_nonempty [OF assms(2)]
    by (simp add: header_names [symmetric] frame_rows_def)
qed

theorem process_video_table_witness:
  "csv (process_video (\<lambda>b. if b then Inr [\<lparr>keypoints = Some [NDArray [], NDArray []]\<rparr>] else Inr [])
          \<lparr>isOpened = True, frames = [False, True]\<rparr> ''v.mp4'' ''Fighting'' [(2, 2)] ''v.csv'') =
     Some [header,
           [PyInt 1, PyInt 0] @ replicate 34 (PyInt 0) @ [PyInt 0],
           [PyInt 2, PyInt 0] @ replicate 34 (PyInt 0) @ [PyInt 1],
           [PyInt 2, PyInt 1] @ replicate 34 (PyInt 0) @ [PyInt 1]]"
proof -
  let ?pm = "\<lambda>b. if b then Inr [\<lparr>keypoints = Some [NDArray [], NDArray []]\<rparr>] else Inr []"
  let ?z = "replicate 34 (PyInt 0)"
  have d1: "detect_keypoints ?pm False = Inr [?z]"
    by (simp add: detect_keypoints_def bind_def)
  have pc: "person_coords (NDArray []) = Inr ?z"
    by (simp add: person_coords_def shape0_def nd_iter_def bind_def)
  have d2: "detect_keypoints ?pm True = Inr [?z, ?z]"
    by (simp add: detect_keypoints_def bind_def pc del: replicate.simps replicate_Suc)
  have h: "map (detect_keypoints ?pm) (frames \<lparr>isOpened = True, frames = [False, True]\<rparr>) =
             map Inr [[?z], [?z, ?z]]"
    using d1 d2 by simp
  have l: "frame_label ''Fighting'' 1 [(2, 2)] = 0" "frame_label ''Fighting'' 2 [(2, 2)] = 1"
    by (simp_all add: frame_label_def)
  have e: "enumerate 1 [[?z], [?z, ?z]] = [(1, [?z]), (2, [?z, ?z])]"
    "enumerate 0 [?z] = [(0, ?z)]" "enumerate 0 [?z, ?z] = [(0, ?z), (1, ?z)]"
    by (simp_all del: replicate.simps replicate_Suc)
  show ?thesis
    using process_video_table [where cap = "\<lparr>isOpened = True, frames = [False, True]\<rparr>"
        and pose_model = ?pm and dets = "[[?z], [?z, ?z]]" and ev = "''Fighting''"
        and ivs = "[(2, 2)]" and video_path = "''v.mp4''" and output_csv_path = "''v.csv''", OF _ h]
    unfolding e header_names [symmetric]
    by (simp add: l del: replicate.simps replicate_Suc)
qed

text \<open>
  C7. A video whose capture does not open makes \<open>process_video\<close> print the error line and
  return without an exception and without opening the CSV file, so no table, not even a
  header, is written for it; the loop of \<open>main\<close> then goes on with the remaining videos,
  the files written so far unchanged.
\<close>

theorem unopened_video_skipped:
  "(\<not> isOpened cap \<longrightarrow>
      process_video pose_model cap video_path ev ivs output_csv_path =
        \<lparr>csv = None, released = False, printed = [CannotOpen video_path], raised = None\<rparr>)
   \<and> (\<not> isOpened (open_capture (video_path_of v)) \<longrightarrow>
        process_entries pose_model open_capture video_path_of csv_path_of ((v, info) # rest) st =
          process_entries pose_model open_capture video_path_of csv_path_of rest
            \<lparr>files = files st,
             console = console st @ [Starting v (event info), CannotOpen (video_path_of v)],
             failure = None\<rparr>)"
  by (simp add: process_video_def Let_def)

theorem unopened_video_skipped_witness:
  "process_entries (\<lambda>u::unit. Inr []) (\<lambda>p. \<lparr>isOpened = (p = ''b.mp4''), frames = []\<rparr>) id
     (\<lambda>n. n @ ''.csv'')
     [(''a.mp4'', \<lparr>event = ''Fighting'', intervals = []\<rparr>),
      (''b.mp4'', \<lparr>event = ''Normal'', intervals = []\<rparr>)]
     \<lparr>files = [], console = [], failure = None\<rparr> =
   \<lparr>files = [(''b.mp4.csv'', [header])],
    console = [Starting ''a.mp4'' ''Fighting'', CannotOpen ''a.mp4'',
               Starting ''b.mp4'' ''Normal'', Processed ''b.mp4'' ''b.mp4.csv'' 0],
    failure = None\<rparr>"
proof -
  let ?oc = "\<lambda>p. \<lparr>isOpened = (p = ''b.mp4''), frames = []\<rparr>"
  have c: "\<not> isOpened (?oc (id ''a.mp4''))" by simp
  show ?thesis
    using unopened_video_skipped [where open_capture = ?oc and video_path_of = id
        and v = "''a.mp4''" and pose_model = "\<lambda>u::unit. Inr []"
        and csv_path_of = "\<lambda>n. n @ ''.csv''"
        and info = "\<lparr>event = ''Fighting'', intervals = []\<rparr>"
        and rest = "[(''b.mp4'', \<lparr>event = ''Normal'', intervals = []\<rparr>)]"
        and st = "\<lparr>files = [], console = [], failure = None\<rparr>"
        and cap = "?oc ''a.mp4''"] c
    by (simp add: process_video_def Let_def)
qed

text \<open>
  C8. The capture is not released on every path: \<open>cap.release()\<close> stands after the
  \<open>with\<close> block only. When the detector raises on the second of three frames, the
  function is left with the exception, the header and the row of the first frame written,
  and the capture not released; the early return of a capture that did not open does not
  release it either.
\<close>

theorem release_skipped:
  "process_video (\<lambda>b. if b then Inr [] else Inl DetectorError)
     \<lparr>isOpened = True, frames = [True, False, True]\<rparr> ''v.mp4'' ''Normal'' [] ''v.csv'' =
     \<lparr>csv = Some [header, [PyInt 1, PyInt 0] @ replicate 34 (PyInt 0) @ [PyInt 0]],
      released = False, printed = [], raised = Some DetectorError\<rparr>
   \<and> released (process_video (\<lambda>b. if b then Inr [] else Inl DetectorError)
        \<lparr>isOpened = False, frames = []\<rparr> ''v.mp4'' ''Normal'' [] ''v.csv'') = False"
  by (simp add: process_video_def detect_keypoints_def bind_def frame_rows_def frame_label_def
      del: replicate.simps replicate_Suc)

text \<open>
  The capture is released exactly on the path that ends normally after the loop.
\<close>

lemma process_video_released_iff:
  "released (process_video pose_model cap video_path ev ivs output_csv_path) \<longleftrightarrow>
     isOpened cap \<and> raised (process_video pose_model cap video_path ev ivs output_csv_path) = None"
  by (auto simp: process_video_def split: prod.splits option.splits)



text \<open>An annotation file that does not parse ends \<open>main\<close> before any video is opened.\<close>

lemma main_parse_error:
  "read_annotations text = Inl e \<Longrightarrow>
   main pose_model open_capture video_path_of csv_path_of files0 text =
     \<lparr>files = files0, console = [], failure = Some e\<rparr>"
  by (simp add: main_def)

end
